theory Spec2Isabelle
  imports Main
begin

section \<open>Data model of the flashlight screen (src/app/_layout.tsx, component App)\<close>

text \<open>
  The component keeps five \<open>useState\<close> cells (lines 62-68) and two refs (lines 70-71).
  \<open>PermissionState\<close> is the union type of line 57. \<open>PermissionStatus\<close> is the status
  field of the permission response of expo-camera, of which the source only tests
  equality with "granted". \<open>AppStateStatus\<close> is the React Native union of lifecycle
  states that the listener of line 121 receives.
\<close>

datatype PermissionState = Unknown | Granted | Denied

datatype PermissionStatus = StatusGranted | StatusDenied | StatusUndetermined

datatype AppStateStatus = Active | Background | Inactive | UnknownState | Extension

text \<open>
  An awaited permission call either resolves with a response (status, canAskAgain) or
  rejects; a rejection is what the \<open>catch\<close> blocks of lines 103, 137 and 161 see.
\<close>

datatype outcome = Resolved PermissionStatus bool | Rejected

text \<open>
  The asynchronous calls the component can have in flight: the query and the request of
  \<open>ensurePermission\<close> (lines 84 and 93), the query of the lifecycle listener (line 133),
  and the request awaited by \<open>toggleFlashlight\<close> (line 190). The last one carries the
  values of \<open>cameraAvailable\<close> and \<open>cameraReady\<close> that the callback closed over when it
  was invoked (dependency list of line 216): the code after the \<open>await\<close> reads those,
  not the state at the time of the resolution.
\<close>

datatype pending_op =
    EnsureQuery
  | EnsureRequest
  | ForegroundQuery
  | ToggleRequest bool bool

record app =
  permission :: PermissionState
  cameraReady :: bool
  flashlightOn :: bool
  message :: "string option"
  cameraAvailable :: bool
  appStateRef :: AppStateStatus
  torchStateRef :: bool
  mounted :: bool
  subscribed :: bool
  pending :: "pending_op list"
  alerts :: "string list"

text \<open>
  \<open>mounted\<close> is the local variable of line 80, \<open>subscribed\<close> says whether the listener
  of line 121 is registered, \<open>pending\<close> lists the calls in flight and \<open>alerts\<close> is the
  log of the titles passed to \<open>Alert.alert\<close>. \<open>isMobile\<close> (line 59) is a constant of the
  run and is passed as a parameter; so is \<open>AppState.currentState\<close> (line 70).
\<close>

definition initial :: "bool \<Rightarrow> AppStateStatus \<Rightarrow> app" where
  "initial isMobile current =
     \<lparr> permission = (if isMobile then Unknown else Denied),
       cameraReady = False,
       flashlightOn = False,
       message = None,
       cameraAvailable = True,
       appStateRef = current,
       torchStateRef = False,
       mounted = False,
       subscribed = False,
       pending = [],
       alerts = [] \<rparr>"

definition alert :: "string \<Rightarrow> app \<Rightarrow> app" where
  "alert title s = s\<lparr>alerts := alerts s @ [title]\<rparr>"

section \<open>Mount effects (lines 78-115, 118-144)\<close>

definition ensurePermissionEffect :: "bool \<Rightarrow> app \<Rightarrow> app" where
  "ensurePermissionEffect isMobile s =
     (if \<not> isMobile then s
      else s\<lparr>mounted := True, pending := pending s @ [EnsureQuery]\<rparr>)"

definition appStateEffect :: "bool \<Rightarrow> app \<Rightarrow> app" where
  "appStateEffect isMobile s =
     (if \<not> isMobile then s else s\<lparr>subscribed := True\<rparr>)"

definition initialize :: "bool \<Rightarrow> app \<Rightarrow> app" where
  "initialize isMobile s = appStateEffect isMobile (ensurePermissionEffect isMobile s)"

section \<open>Completions of \<open>ensurePermission\<close> (lines 82-109)\<close>

definition ensureQueryResolved :: "outcome \<Rightarrow> app \<Rightarrow> app" where
  "ensureQueryResolved r s =
     (case r of
        Rejected \<Rightarrow>
          (if mounted s
           then s\<lparr>permission := Denied,
                  message := Some ''Could not read camera permission state.''\<rparr>
           else s)
      | Resolved status canAskAgain \<Rightarrow>
          (if \<not> mounted s then s
           else if status = StatusGranted then s\<lparr>permission := Granted\<rparr>
           else if canAskAgain then s\<lparr>pending := pending s @ [EnsureRequest]\<rparr>
           else s\<lparr>permission := Denied,
                   message := Some ''Camera permission is required to control the flashlight.''\<rparr>))"

definition ensureRequestResolved :: "outcome \<Rightarrow> app \<Rightarrow> app" where
  "ensureRequestResolved r s =
     (case r of
        Rejected \<Rightarrow>
          (if mounted s
           then s\<lparr>permission := Denied,
                  message := Some ''Could not read camera permission state.''\<rparr>
           else s)
      | Resolved status canAskAgain \<Rightarrow>
          (if \<not> mounted s then s
           else if status = StatusGranted then s\<lparr>permission := Granted\<rparr>
           else s\<lparr>permission := Denied,
                   message := Some ''Camera permission is required to control the flashlight.''\<rparr>))"

section \<open>Lifecycle listener (lines 121-139)\<close>

text \<open>\<open>nextState.match(/inactive|background/)\<close> on the five lifecycle strings.\<close>

fun matchesInactiveBackground :: "AppStateStatus \<Rightarrow> bool" where
  "matchesInactiveBackground Inactive = True"
| "matchesInactiveBackground Background = True"
| "matchesInactiveBackground Active = False"
| "matchesInactiveBackground UnknownState = False"
| "matchesInactiveBackground Extension = False"

definition appStateListener :: "AppStateStatus \<Rightarrow> app \<Rightarrow> app" where
  "appStateListener nextState s =
     (let previous = appStateRef s;
          s1 = s\<lparr>appStateRef := nextState\<rparr>;
          s2 = (if previous = Active \<and> matchesInactiveBackground nextState
                then (if torchStateRef s1
                      then s1\<lparr>torchStateRef := False, flashlightOn := False\<rparr>
                      else s1)
                else s1)
      in if nextState = Active
         then s2\<lparr>pending := pending s2 @ [ForegroundQuery]\<rparr>
         else s2)"

definition foregroundQueryResolved :: "outcome \<Rightarrow> app \<Rightarrow> app" where
  "foregroundQueryResolved r s =
     (case r of
        Resolved status canAskAgain \<Rightarrow>
          s\<lparr>permission := (if status = StatusGranted then Granted else Denied)\<rparr>
      | Rejected \<Rightarrow> s)"

section \<open>Camera callbacks (lines 168-178)\<close>

definition handleCameraReady :: "app \<Rightarrow> app" where
  "handleCameraReady s = s\<lparr>cameraReady := True, message := None\<rparr>"

definition handleCameraError :: "string option \<Rightarrow> app \<Rightarrow> app" where
  "handleCameraError errorMessage s =
     s\<lparr>cameraReady := False,
       cameraAvailable := False,
       flashlightOn := False,
       message := Some (case errorMessage of
                          Some m \<Rightarrow> m
                        | None \<Rightarrow> ''Unknown camera error.'')\<rparr>"

section \<open>Toggle (lines 152-166 and 180-216)\<close>

text \<open>
  \<open>requestPermission\<close> after its \<open>await\<close>: the new state and the boolean it returns.
\<close>

definition requestPermission :: "outcome \<Rightarrow> app \<Rightarrow> bool \<times> app" where
  "requestPermission r s =
     (case r of
        Resolved status canAskAgain \<Rightarrow>
          (let granted = (status = StatusGranted);
               s1 = s\<lparr>permission := (if granted then Granted else Denied)\<rparr>
           in (granted,
               if \<not> granted
               then s1\<lparr>message := Some ''Camera access is required to control the flashlight.''\<rparr>
               else s1))
      | Rejected \<Rightarrow>
          (False, s\<lparr>permission := Denied,
                    message := Some ''Unable to request camera permission.''\<rparr>))"

text \<open>
  Lines 204-215, on the closed-over \<open>cameraAvailable\<close> and \<open>cameraReady\<close>. The flip
  itself is a functional update, so it reads the state it is applied to.
\<close>

definition toggleTail :: "bool \<Rightarrow> bool \<Rightarrow> app \<Rightarrow> app" where
  "toggleTail available ready s =
     (if \<not> available then alert ''Camera unavailable'' s
      else if \<not> ready
      then s\<lparr>message := Some ''Camera is still starting. Try again in a moment.''\<rparr>
      else s\<lparr>message := None, flashlightOn := \<not> flashlightOn s\<rparr>)"

text \<open>
  \<open>toggleFlashlight\<close> up to its first suspension: with the permission granted it runs
  to the end, otherwise it leaves the request in flight.
\<close>

definition toggleFlashlight :: "bool \<Rightarrow> app \<Rightarrow> app" where
  "toggleFlashlight isMobile s =
     (if \<not> isMobile then alert ''Not supported'' s
      else if permission s \<noteq> Granted
      then s\<lparr>pending := pending s @ [ToggleRequest (cameraAvailable s) (cameraReady s)]\<rparr>
      else toggleTail (cameraAvailable s) (cameraReady s) s)"

definition toggleResumed :: "bool \<Rightarrow> bool \<Rightarrow> outcome \<Rightarrow> app \<Rightarrow> app" where
  "toggleResumed available ready r s =
     (case requestPermission r s of
        (grantedNow, s1) \<Rightarrow>
          if \<not> grantedNow then alert ''Permission needed'' s1
          else toggleTail available ready s1)"

section \<open>Derived values (lines 218-225, 252-257)\<close>

definition statusText :: "bool \<Rightarrow> app \<Rightarrow> string" where
  "statusText isMobile s =
     (if \<not> isMobile then ''Flashlight works only on Android/iOS devices.''
      else if permission s = Unknown then ''Checking camera permission...''
      else if permission s = Denied then ''Grant camera permission.''
      else if \<not> cameraAvailable s then ''Camera unavailable.''
      else if \<not> cameraReady s then ''Starting camera session...''
      else if flashlightOn s then ''Flashlight is ON.'' else ''Flashlight is OFF.'')"

definition buttonDisabled :: "bool \<Rightarrow> app \<Rightarrow> bool" where
  "buttonDisabled isMobile s =
     (permission s \<noteq> Granted \<or> \<not> cameraAvailable s \<or> \<not> isMobile)"

text \<open>
  The camera readiness of the specification, read off the two booleans in the order in
  which lines 204-209 and 222-223 test them.
\<close>

datatype CameraReadiness = NotReady | Ready | Errored

definition readiness :: "app \<Rightarrow> CameraReadiness" where
  "readiness s =
     (if \<not> cameraAvailable s then Errored
      else if cameraReady s then Ready else NotReady)"

section \<open>Render effects (lines 73-75, 146-150)\<close>

definition syncTorchRef :: "app \<Rightarrow> app" where
  "syncTorchRef s = s\<lparr>torchStateRef := flashlightOn s\<rparr>"

definition reconcile :: "app \<Rightarrow> app" where
  "reconcile s =
     (if permission s \<noteq> Granted \<and> flashlightOn s then s\<lparr>flashlightOn := False\<rparr> else s)"

text \<open>
  After a state change the component renders and both effects run; when the second one
  switches the flag off there is one more render, whose effects change nothing further.
\<close>

definition runEffects :: "app \<Rightarrow> app" where
  "runEffects s = syncTorchRef (reconcile (syncTorchRef s))"

section \<open>Events\<close>

datatype event =
    Initialize
  | CameraReady
  | CameraError "string option"
  | AppStateChange AppStateStatus
  | Toggle
  | Resolve nat outcome

fun complete :: "pending_op \<Rightarrow> outcome \<Rightarrow> app \<Rightarrow> app" where
  "complete EnsureQuery r s = ensureQueryResolved r s"
| "complete EnsureRequest r s = ensureRequestResolved r s"
| "complete ForegroundQuery r s = foregroundQueryResolved r s"
| "complete (ToggleRequest available ready) r s = toggleResumed available ready r s"

definition removeAt :: "nat \<Rightarrow> 'a list \<Rightarrow> 'a list" where
  "removeAt i xs = take i xs @ drop (Suc i) xs"

text \<open>\<open>Resolve i r\<close> settles the i-th call in flight with \<open>r\<close>; there must be one.\<close>

definition resolve :: "nat \<Rightarrow> outcome \<Rightarrow> app \<Rightarrow> app" where
  "resolve i r s =
     (if i < length (pending s)
      then complete (pending s ! i) r (s\<lparr>pending := removeAt i (pending s)\<rparr>)
      else s)"

text \<open>
  What each event runs. A lifecycle change reaches the listener only while it is
  registered; a tap reaches \<open>toggleFlashlight\<close> only while the button is enabled
  (\<open>disabled\<close> prop, line 257).
\<close>

fun handle :: "bool \<Rightarrow> event \<Rightarrow> app \<Rightarrow> app" where
  "handle isMobile Initialize s = initialize isMobile s"
| "handle isMobile CameraReady s = handleCameraReady s"
| "handle isMobile (CameraError e) s = handleCameraError e s"
| "handle isMobile (AppStateChange nextState) s =
     (if subscribed s then appStateListener nextState s else s)"
| "handle isMobile Toggle s =
     (if buttonDisabled isMobile s then s else toggleFlashlight isMobile s)"
| "handle isMobile (Resolve i r) s = resolve i r s"

definition step :: "bool \<Rightarrow> app \<Rightarrow> event \<Rightarrow> app" where
  "step isMobile s e = runEffects (handle isMobile e s)"

definition exec :: "bool \<Rightarrow> AppStateStatus \<Rightarrow> event list \<Rightarrow> app" where
  "exec isMobile current es = foldl (step isMobile) (initial isMobile current) es"

section \<open>A call of \<open>toggleFlashlight\<close> run to its end\<close>

text \<open>
  The whole of lines 180-216 when the awaited request settles with \<open>r\<close> before
  anything else happens; \<open>r\<close> is not looked at when the permission is already granted.
\<close>

definition toggleRun :: "bool \<Rightarrow> outcome \<Rightarrow> app \<Rightarrow> app" where
  "toggleRun isMobile r s =
     (if \<not> isMobile then alert ''Not supported'' s
      else if permission s \<noteq> Granted
      then toggleResumed (cameraAvailable s) (cameraReady s) r s
      else toggleTail (cameraAvailable s) (cameraReady s) s)"

section \<open>Predicates used in the statements\<close>

fun isToggleRequest :: "pending_op \<Rightarrow> bool" where
  "isToggleRequest (ToggleRequest available ready) = True"
| "isToggleRequest EnsureQuery = False"
| "isToggleRequest EnsureRequest = False"
| "isToggleRequest ForegroundQuery = False"


text \<open>
  What every state between two events satisfies: the flag is on only with permission and
  a ready, available camera; the ref mirrors the flag; no toggle request is in flight
  (the button is disabled while permission is missing); and permission is granted or a
  call is in flight only once the mount effects have run.
\<close>

definition consistent :: "app \<Rightarrow> bool" where
  "consistent s =
     ((flashlightOn s \<longrightarrow> permission s = Granted \<and> cameraReady s \<and> cameraAvailable s)
      \<and> torchStateRef s = flashlightOn s
      \<and> (\<forall>p \<in> set (pending s). \<not> isToggleRequest p)
      \<and> (permission s = Granted \<or> pending s \<noteq> [] \<longrightarrow> subscribed s))"

section \<open>The status text as the specification words it\<close>

text \<open>
  The specification describes the status text as an ordered list of (predicate, text)
  pairs over the tuple (permission, camera readiness, torch flag), the first match
  winning, with the ON/OFF text as the default.
\<close>

type_synonym status_tuple = "PermissionState \<times> CameraReadiness \<times> bool"

definition statusRules :: "bool \<Rightarrow> ((status_tuple \<Rightarrow> bool) \<times> string) list" where
  "statusRules isMobile =
     [(\<lambda>(p, c, t). \<not> isMobile, ''Flashlight works only on Android/iOS devices.''),
      (\<lambda>(p, c, t). p = Unknown, ''Checking camera permission...''),
      (\<lambda>(p, c, t). p = Denied, ''Grant camera permission.''),
      (\<lambda>(p, c, t). c = Errored, ''Camera unavailable.''),
      (\<lambda>(p, c, t). c = NotReady, ''Starting camera session...'')]"

fun firstMatch :: "(('a \<Rightarrow> bool) \<times> 'b) list \<Rightarrow> 'a \<Rightarrow> 'b option" where
  "firstMatch [] x = None"
| "firstMatch ((holds, text) # rules) x = (if holds x then Some text else firstMatch rules x)"

definition statusBySpec :: "bool \<Rightarrow> status_tuple \<Rightarrow> string" where
  "statusBySpec isMobile x =
     (case firstMatch (statusRules isMobile) x of
        Some text \<Rightarrow> text
      | None \<Rightarrow> (case x of (p, c, t) \<Rightarrow>
                  if t then ''Flashlight is ON.'' else ''Flashlight is OFF.''))"

section \<open>Completions as the calls they make, and the component after unmount\<close>

text \<open>
  What the code after an \<open>await\<close> calls, in order: the state setters, \<open>Alert.alert\<close>,
  and the request that \<open>ensurePermission\<close> may start. The first argument of
  \<open>completionCalls\<close> is the value of the variable \<open>mounted\<close> that the completion
  reads; only the completions of \<open>ensurePermission\<close> read it (lines 85, 94, 104).
\<close>

datatype call =
    SetPermission PermissionState
  | SetMessage "string option"
  | FlipFlashlightOn
  | ShowAlert string
  | StartRequest

definition toggleTailCalls :: "bool \<Rightarrow> bool \<Rightarrow> call list" where
  "toggleTailCalls available ready =
     (if \<not> available then [ShowAlert ''Camera unavailable'']
      else if \<not> ready
      then [SetMessage (Some ''Camera is still starting. Try again in a moment.'')]
      else [SetMessage None, FlipFlashlightOn])"

fun completionCalls :: "bool \<Rightarrow> pending_op \<Rightarrow> outcome \<Rightarrow> call list" where
  "completionCalls isMounted EnsureQuery (Resolved status canAskAgain) =
     (if \<not> isMounted then []
      else if status = StatusGranted then [SetPermission Granted]
      else if canAskAgain then [StartRequest]
      else [SetPermission Denied,
            SetMessage (Some ''Camera permission is required to control the flashlight.'')])"
| "completionCalls isMounted EnsureQuery Rejected =
     (if isMounted
      then [SetPermission Denied, SetMessage (Some ''Could not read camera permission state.'')]
      else [])"
| "completionCalls isMounted EnsureRequest (Resolved status canAskAgain) =
     (if \<not> isMounted then []
      else if status = StatusGranted then [SetPermission Granted]
      else [SetPermission Denied,
            SetMessage (Some ''Camera permission is required to control the flashlight.'')])"
| "completionCalls isMounted EnsureRequest Rejected =
     (if isMounted
      then [SetPermission Denied, SetMessage (Some ''Could not read camera permission state.'')]
      else [])"
| "completionCalls isMounted ForegroundQuery (Resolved status canAskAgain) =
     [SetPermission (if status = StatusGranted then Granted else Denied)]"
| "completionCalls isMounted ForegroundQuery Rejected = []"
| "completionCalls isMounted (ToggleRequest available ready) (Resolved status canAskAgain) =
     (if status = StatusGranted
      then SetPermission Granted # toggleTailCalls available ready
      else [SetPermission Denied,
            SetMessage (Some ''Camera access is required to control the flashlight.''),
            ShowAlert ''Permission needed''])"
| "completionCalls isMounted (ToggleRequest available ready) Rejected =
     [SetPermission Denied, SetMessage (Some ''Unable to request camera permission.''),
      ShowAlert ''Permission needed'']"

text \<open>What a call does while the component is mounted.\<close>

fun applyCall :: "app \<Rightarrow> call \<Rightarrow> app" where
  "applyCall s (SetPermission p) = s\<lparr>permission := p\<rparr>"
| "applyCall s (SetMessage m) = s\<lparr>message := m\<rparr>"
| "applyCall s FlipFlashlightOn = s\<lparr>flashlightOn := \<not> flashlightOn s\<rparr>"
| "applyCall s (ShowAlert title) = alert title s"
| "applyCall s StartRequest = s\<lparr>pending := pending s @ [EnsureRequest]\<rparr>"

text \<open>
  Unmounting runs the two cleanup functions (lines 112-114 and 141-143); calls already
  in flight stay in flight. From then on the state cells of the component take no
  update: a state setter called after unmount has no effect. The alert and the start
  of a request are not state setters and are unaffected. The unmounted component is a
  type of its own, so that no handler of the mounted component applies to it.
\<close>

datatype unmounted = Unmounted app

fun lastState :: "unmounted \<Rightarrow> app" where
  "lastState (Unmounted s) = s"

definition teardown :: "app \<Rightarrow> unmounted" where
  "teardown s = Unmounted (s\<lparr>mounted := False, subscribed := False\<rparr>)"

fun applyCallUnmounted :: "app \<Rightarrow> call \<Rightarrow> app" where
  "applyCallUnmounted s (SetPermission p) = s"
| "applyCallUnmounted s (SetMessage m) = s"
| "applyCallUnmounted s FlipFlashlightOn = s"
| "applyCallUnmounted s (ShowAlert title) = alert title s"
| "applyCallUnmounted s StartRequest = s\<lparr>pending := pending s @ [EnsureRequest]\<rparr>"

text \<open>
  The i-th call in flight settles after unmount: the calls its completion makes, and
  what is left of the component.
\<close>

definition resolveUnmounted :: "nat \<Rightarrow> outcome \<Rightarrow> unmounted \<Rightarrow> call list \<times> unmounted" where
  "resolveUnmounted i r u =
     (let s = lastState u in
      if i < length (pending s)
      then (let calls = completionCalls (mounted s) (pending s ! i) r
            in (calls,
                Unmounted (foldl applyCallUnmounted (s\<lparr>pending := removeAt i (pending s)\<rparr>)
                  calls)))
      else ([], u))"

section \<open>Basic facts\<close>

lemmas handler_defs =
  initialize_def ensurePermissionEffect_def appStateEffect_def
  ensureQueryResolved_def ensureRequestResolved_def foregroundQueryResolved_def
  appStateListener_def handleCameraReady_def handleCameraError_def
  requestPermission_def toggleTail_def toggleFlashlight_def toggleResumed_def
  buttonDisabled_def alert_def resolve_def removeAt_def

lemmas run_defs =
  exec_def step_def initial_def runEffects_def syncTorchRef_def reconcile_def

lemma set_removeAt: "set (removeAt i xs) \<subseteq> set xs"
  unfolding removeAt_def by (auto dest: in_set_takeD in_set_dropD)

lemma removeAt_snoc: "removeAt (length xs) (xs @ [x]) = xs"
  by (simp add: removeAt_def)

lemma flashlightOn_runEffects:
  "flashlightOn (runEffects s) = (flashlightOn s \<and> permission s = Granted)"
  by (simp add: runEffects_def syncTorchRef_def reconcile_def)

lemma cameraAvailable_runEffects: "cameraAvailable (runEffects s) = cameraAvailable s"
  by (simp add: runEffects_def syncTorchRef_def reconcile_def)

lemma consistent_initial: "consistent (initial isMobile current)"
  by (simp add: consistent_def initial_def)

lemma consistent_runEffects:
  assumes "flashlightOn s \<longrightarrow> cameraReady s \<and> cameraAvailable s"
    and "\<forall>p \<in> set (pending s). \<not> isToggleRequest p"
    and "permission s = Granted \<or> pending s \<noteq> [] \<longrightarrow> subscribed s"
  shows "consistent (runEffects s)"
  using assms by (simp add: consistent_def runEffects_def syncTorchRef_def reconcile_def)

lemma handle_keeps:
  assumes "consistent s"
  shows "(flashlightOn (handle m e s) \<longrightarrow>
            cameraReady (handle m e s) \<and> cameraAvailable (handle m e s))
     \<and> (\<forall>p \<in> set (pending (handle m e s)). \<not> isToggleRequest p)
     \<and> (permission (handle m e s) = Granted \<or> pending (handle m e s) \<noteq> []
          \<longrightarrow> subscribed (handle m e s))"
proof (cases e)
  case Initialize
  with assms show ?thesis
    by (auto simp: consistent_def initialize_def ensurePermissionEffect_def appStateEffect_def)
next
  case CameraReady
  with assms show ?thesis by (auto simp: consistent_def handleCameraReady_def)
next
  case (CameraError x)
  with assms show ?thesis by (auto simp: consistent_def handleCameraError_def)
next
  case (AppStateChange n)
  with assms show ?thesis by (auto simp: consistent_def appStateListener_def Let_def)
next
  case Toggle
  with assms show ?thesis
    by (auto simp: consistent_def buttonDisabled_def toggleFlashlight_def toggleTail_def
        alert_def)
next
  case (Resolve i r)
  show ?thesis
  proof (cases "i < length (pending s)")
    case False
    with assms Resolve show ?thesis by (simp add: consistent_def resolve_def)
  next
    case True
    then have "pending s ! i \<in> set (pending s)" by simp
    with assms have nt: "\<not> isToggleRequest (pending s ! i)" by (simp add: consistent_def)
    from assms have rest: "\<forall>p \<in> set (removeAt i (pending s)). \<not> isToggleRequest p"
      using set_removeAt [of i "pending s"] by (auto simp: consistent_def)
    from assms have fl: "flashlightOn s \<longrightarrow> cameraReady s \<and> cameraAvailable s"
      by (simp add: consistent_def)
    from assms True have sub: "subscribed s" by (auto simp: consistent_def)
    show ?thesis
    proof (cases "pending s ! i")
      case EnsureQuery
      with True Resolve rest fl sub show ?thesis
        by (cases r) (auto simp: resolve_def ensureQueryResolved_def)
    next
      case EnsureRequest
      with True Resolve rest fl sub show ?thesis
        by (cases r) (auto simp: resolve_def ensureRequestResolved_def)
    next
      case ForegroundQuery
      with True Resolve rest fl sub show ?thesis
        by (cases r) (auto simp: resolve_def foregroundQueryResolved_def)
    next
      case (ToggleRequest a b)
      with nt show ?thesis by simp
    qed
  qed
qed

lemma consistent_step: "consistent s \<Longrightarrow> consistent (step m s e)"
  unfolding step_def using handle_keeps [of s m e] by (intro consistent_runEffects) auto

lemma consistent_foldl: "consistent s \<Longrightarrow> consistent (foldl (step m) s es)"
  by (induction es arbitrary: s) (simp_all add: consistent_step)

lemma consistent_exec: "consistent (exec m c es)"
  unfolding exec_def by (rule consistent_foldl) (rule consistent_initial)

section \<open>Invariants\<close>

text \<open>
  C1. Whatever events the component receives (mount, camera callbacks, lifecycle
  changes, taps, resolutions of the permission calls in flight), the state reached
  after the last of them and its effects satisfies: torch flag on implies permission
  granted (I1); torch flag on implies camera ready (I2); camera errored implies torch
  flag off (I4). The list of events is arbitrary, so this covers the state after each
  event of a run.
\<close>

theorem invariants_hold:
  fixes isMobile current es
  defines "s \<equiv> exec isMobile current es"
  shows "(flashlightOn s \<longrightarrow> permission s = Granted)
       \<and> (flashlightOn s \<longrightarrow> readiness s = Ready)
       \<and> (readiness s = Errored \<longrightarrow> \<not> flashlightOn s)"
  unfolding s_def using consistent_exec [of isMobile current es]
  by (auto simp: consistent_def readiness_def)

theorem invariants_hold_witness:
  "flashlightOn
     (exec True Active [Initialize, Resolve 0 (Resolved StatusGranted True), CameraReady, Toggle])
   \<and> permission
     (exec True Active [Initialize, Resolve 0 (Resolved StatusGranted True), CameraReady, Toggle])
       = Granted
   \<and> readiness
     (exec True Active [Initialize, Resolve 0 (Resolved StatusGranted True), CameraReady, Toggle])
       = Ready"
proof -
  have "flashlightOn
     (exec True Active [Initialize, Resolve 0 (Resolved StatusGranted True), CameraReady, Toggle])"
    by (simp add: run_defs handler_defs)
  with invariants_hold [of True Active
      "[Initialize, Resolve 0 (Resolved StatusGranted True), CameraReady, Toggle]"]
  show ?thesis by simp
qed

section \<open>Toggle\<close>

lemma readiness_iff:
  "readiness s = Ready \<longleftrightarrow> cameraAvailable s \<and> cameraReady s"
  "readiness s = NotReady \<longleftrightarrow> cameraAvailable s \<and> \<not> cameraReady s"
  "readiness s = Errored \<longleftrightarrow> \<not> cameraAvailable s"
  by (simp_all add: readiness_def)

lemma toggle_granted_ready:
  assumes "permission s = Granted" and "readiness s = Ready"
  shows "toggleFlashlight True s = s\<lparr>message := None, flashlightOn := \<not> flashlightOn s\<rparr>"
  using assms by (simp add: toggleFlashlight_def toggleTail_def readiness_iff)

lemma tap_granted_ready:
  assumes "permission s = Granted" and "readiness s = Ready"
  shows "step True s Toggle
           = runEffects (s\<lparr>message := None, flashlightOn := \<not> flashlightOn s\<rparr>)"
proof -
  from assms have "\<not> buttonDisabled True s"
    by (simp add: buttonDisabled_def readiness_iff)
  with toggle_granted_ready [OF assms] show ?thesis by (simp add: step_def)
qed





text \<open>
  C6. From any state with permission granted and the camera ready, on a supported
  platform, two calls of toggle in succession give back the starting state with the
  message cleared: the torch flag has its original value and the message is null. The
  same holds for two taps with their effects.
\<close>

theorem toggle_twice_round_trip:
  "permission s = Granted \<and> readiness s = Ready \<longrightarrow>
     toggleFlashlight True (toggleFlashlight True s) = s\<lparr>message := None\<rparr>
     \<and> flashlightOn (step True (step True s Toggle) Toggle) = flashlightOn s
     \<and> message (step True (step True s Toggle) Toggle) = None"
proof (intro impI conjI)
  assume a: "permission s = Granted \<and> readiness s = Ready"
  let ?u = "s\<lparr>message := None, flashlightOn := \<not> flashlightOn s\<rparr>"
  have u: "permission ?u = Granted" "readiness ?u = Ready"
    using a by (simp_all add: readiness_iff)
  from a have first: "toggleFlashlight True s = ?u" by (simp add: toggle_granted_ready)
  show "toggleFlashlight True (toggleFlashlight True s) = s\<lparr>message := None\<rparr>"
    unfolding first toggle_granted_ready [OF u] by simp
  let ?v = "step True s Toggle"
  have v: "permission ?v = Granted" "readiness ?v = Ready"
    using a
    by (simp_all add: tap_granted_ready runEffects_def syncTorchRef_def reconcile_def
        readiness_iff)
  have fv: "flashlightOn ?v = (\<not> flashlightOn s)"
    using a by (simp add: tap_granted_ready flashlightOn_runEffects)
  show "flashlightOn (step True ?v Toggle) = flashlightOn s"
    using v fv by (simp add: tap_granted_ready flashlightOn_runEffects)
  show "message (step True ?v Toggle) = None"
    using v by (simp add: tap_granted_ready runEffects_def syncTorchRef_def reconcile_def)
qed

theorem toggle_twice_round_trip_witness:
  "permission (exec True Active [Initialize, Resolve 0 (Resolved StatusGranted True), CameraReady,
       Toggle]) = Granted
   \<and> readiness (exec True Active [Initialize, Resolve 0 (Resolved StatusGranted True), CameraReady,
       Toggle]) = Ready
   \<and> flashlightOn (toggleFlashlight True (toggleFlashlight True
       (exec True Active [Initialize, Resolve 0 (Resolved StatusGranted True), CameraReady,
         Toggle])))
   \<and> message (toggleFlashlight True (toggleFlashlight True
       (exec True Active [Initialize, Resolve 0 (Resolved StatusGranted True), CameraReady,
         Toggle]))) = None"
proof -
  let ?s = "exec True Active [Initialize, Resolve 0 (Resolved StatusGranted True), CameraReady,
       Toggle]"
  have h: "permission ?s = Granted" "readiness ?s = Ready" "flashlightOn ?s"
    by (simp_all add: run_defs handler_defs readiness_def)
  from h toggle_twice_round_trip [of ?s] show ?thesis by simp
qed

lemma toggle_granted_not_ready:
  assumes "permission s = Granted" and "readiness s = NotReady"
  shows "toggleFlashlight True s
           = s\<lparr>message := Some ''Camera is still starting. Try again in a moment.''\<rparr>"
  using assms by (simp add: toggleFlashlight_def toggleTail_def readiness_iff)

lemma toggles_not_ready:
  assumes "permission s = Granted" and "readiness s = NotReady"
  shows "(toggleFlashlight True ^^ Suc n) s
           = s\<lparr>message := Some ''Camera is still starting. Try again in a moment.''\<rparr>"
proof (induction n)
  case 0
  from assms show ?case by (simp add: toggle_granted_not_ready)
next
  case (Suc n)
  let ?u = "s\<lparr>message := Some ''Camera is still starting. Try again in a moment.''\<rparr>"
  have u: "permission ?u = Granted" "readiness ?u = NotReady"
    using assms by (simp_all add: readiness_iff)
  have "(toggleFlashlight True ^^ Suc (Suc n)) s = toggleFlashlight True ?u"
    using Suc.IH by simp
  also have "\<dots> = ?u" unfolding toggle_granted_not_ready [OF u] by simp
  finally show ?case .
qed

lemma taps_not_ready:
  assumes "permission s = Granted" and "readiness s = NotReady"
  shows "flashlightOn (foldl (step True) s (replicate n Toggle)) = flashlightOn s"
  using assms
proof (induction n arbitrary: s)
  case 0
  then show ?case by simp
next
  case (Suc n)
  from Suc.prems have en: "\<not> buttonDisabled True s"
    by (simp add: buttonDisabled_def readiness_iff)
  let ?v = "step True s Toggle"
  from Suc.prems en have v: "permission ?v = Granted" "readiness ?v = NotReady"
      "flashlightOn ?v = flashlightOn s"
    by (simp_all add: step_def toggle_granted_not_ready runEffects_def syncTorchRef_def
        reconcile_def readiness_iff)
  from Suc.IH [OF v(1) v(2)] v(3) show ?case by simp
qed

text \<open>
  C7. On a supported platform, with permission granted and the camera available but not
  yet ready, any number of calls of toggle leaves the torch flag as it was: after one
  call or more the state is the starting state with the message set to the "still
  starting" text, and no other field differs. The same holds for the flag after any
  number of taps with their effects.
\<close>

theorem toggle_not_ready_refused:
  "permission s = Granted \<and> readiness s = NotReady \<longrightarrow>
     flashlightOn ((toggleFlashlight True ^^ n) s) = flashlightOn s
     \<and> (toggleFlashlight True ^^ Suc n) s
         = s\<lparr>message := Some ''Camera is still starting. Try again in a moment.''\<rparr>
     \<and> flashlightOn (foldl (step True) s (replicate n Toggle)) = flashlightOn s"
proof (intro impI conjI)
  assume a: "permission s = Granted \<and> readiness s = NotReady"
  show "flashlightOn ((toggleFlashlight True ^^ n) s) = flashlightOn s"
  proof (cases n)
    case 0
    then show ?thesis by simp
  next
    case (Suc k)
    with a show ?thesis by (simp only: toggles_not_ready) simp
  qed
  from a show "(toggleFlashlight True ^^ Suc n) s
         = s\<lparr>message := Some ''Camera is still starting. Try again in a moment.''\<rparr>"
    by (simp only: toggles_not_ready)
  from a show "flashlightOn (foldl (step True) s (replicate n Toggle)) = flashlightOn s"
    by (simp add: taps_not_ready)
qed

theorem toggle_not_ready_refused_witness:
  "permission (exec True Active [Initialize, Resolve 0 (Resolved StatusGranted True)]) = Granted
   \<and> readiness (exec True Active [Initialize, Resolve 0 (Resolved StatusGranted True)]) = NotReady
   \<and> \<not> flashlightOn ((toggleFlashlight True ^^ 3)
        (exec True Active [Initialize, Resolve 0 (Resolved StatusGranted True)]))
   \<and> message ((toggleFlashlight True ^^ Suc 3)
        (exec True Active [Initialize, Resolve 0 (Resolved StatusGranted True)]))
       = Some ''Camera is still starting. Try again in a moment.''"
proof -
  let ?s = "exec True Active [Initialize, Resolve 0 (Resolved StatusGranted True)]"
  have h: "permission ?s = Granted" "readiness ?s = NotReady" "\<not> flashlightOn ?s"
    by (simp_all add: run_defs handler_defs readiness_def)
  from h toggle_not_ready_refused [of ?s 3] show ?thesis by simp
qed

section \<open>Status text\<close>

text \<open>
  C8. The status text is a function of the platform flag and the tuple (permission,
  camera readiness, torch flag) alone, and it is the first match of the ordered rules:
  platform unsupported, permission unknown, permission denied, camera errored, camera
  not ready; when none matches it is the ON or OFF text according to the torch flag.
\<close>

theorem statusText_priority:
  "statusText isMobile s = statusBySpec isMobile (permission s, readiness s, flashlightOn s)"
  by (cases "permission s")
    (simp_all add: statusText_def statusBySpec_def statusRules_def readiness_def)

theorem statusText_priority_witness:
  "statusText True
     (exec True Active [Initialize, Resolve 0 (Resolved StatusGranted True), CameraReady, Toggle])
     = ''Flashlight is ON.''
   \<and> statusText False
     (exec True Active [Initialize, Resolve 0 (Resolved StatusGranted True), CameraReady, Toggle])
     = ''Flashlight works only on Android/iOS devices.''
   \<and> statusText True
     (exec True Active [Initialize, Resolve 0 (Resolved StatusDenied False), CameraError None])
     = ''Grant camera permission.''"
  unfolding statusText_priority
  by (simp add: run_defs handler_defs readiness_def statusBySpec_def statusRules_def)

section \<open>Lifecycle changes\<close>

lemma listener_active:
  "appStateListener Active s
     = s\<lparr>appStateRef := Active, pending := pending s @ [ForegroundQuery]\<rparr>"
  by (simp add: appStateListener_def Let_def)

lemma resolve_last:
  "resolve (length (pending s)) r (s\<lparr>appStateRef := a, pending := pending s @ [p]\<rparr>)
     = complete p r (s\<lparr>appStateRef := a\<rparr>)"
  by (simp add: resolve_def removeAt_snoc)

text \<open>
  C9. The listener, called with the next state active, records the state and puts one
  permission query in flight, and nothing else. When that query resolves, the
  permission becomes granted exactly if the status is "granted" and denied otherwise,
  no request is issued, and no other field changes. When it rejects, every field is as
  it was before the query was issued: no message, no alert. While the listener is
  registered, this is what the lifecycle event runs.
\<close>

theorem foreground_requery:
  "appStateListener Active s
     = s\<lparr>appStateRef := Active, pending := pending s @ [ForegroundQuery]\<rparr>
   \<and> resolve (length (pending s)) (Resolved status canAskAgain) (appStateListener Active s)
     = s\<lparr>appStateRef := Active,
         permission := (if status = StatusGranted then Granted else Denied)\<rparr>
   \<and> resolve (length (pending s)) Rejected (appStateListener Active s)
     = s\<lparr>appStateRef := Active\<rparr>
   \<and> (subscribed s \<longrightarrow>
        handle isMobile (AppStateChange Active) s = appStateListener Active s)"
proof (intro conjI impI)
  show "appStateListener Active s
     = s\<lparr>appStateRef := Active, pending := pending s @ [ForegroundQuery]\<rparr>"
    by (rule listener_active)
  show "resolve (length (pending s)) (Resolved status canAskAgain) (appStateListener Active s)
     = s\<lparr>appStateRef := Active,
         permission := (if status = StatusGranted then Granted else Denied)\<rparr>"
    unfolding listener_active resolve_last by (simp add: foregroundQueryResolved_def)
  show "resolve (length (pending s)) Rejected (appStateListener Active s)
     = s\<lparr>appStateRef := Active\<rparr>"
    unfolding listener_active resolve_last by (simp add: foregroundQueryResolved_def)
  assume "subscribed s"
  then show "handle isMobile (AppStateChange Active) s = appStateListener Active s"
    by simp
qed

theorem foreground_requery_witness:
  "subscribed (exec True Background [Initialize, Resolve 0 (Resolved StatusGranted True)])
   \<and> pending (handle True (AppStateChange Active)
        (exec True Background [Initialize, Resolve 0 (Resolved StatusGranted True)]))
       = [ForegroundQuery]
   \<and> permission (resolve 0 (Resolved StatusDenied False)
        (handle True (AppStateChange Active)
          (exec True Background [Initialize, Resolve 0 (Resolved StatusGranted True)])))
       = Denied
   \<and> permission (resolve 0 Rejected
        (handle True (AppStateChange Active)
          (exec True Background [Initialize, Resolve 0 (Resolved StatusGranted True)])))
       = Granted"
proof -
  let ?s = "exec True Background [Initialize, Resolve 0 (Resolved StatusGranted True)]"
  have h: "subscribed ?s" "pending ?s = []" "permission ?s = Granted"
    by (simp_all add: run_defs handler_defs)
  note t = foreground_requery [of ?s StatusDenied False True]
  from t h(1) have e: "handle True (AppStateChange Active) ?s = appStateListener Active ?s"
    by blast
  from t have l: "appStateListener Active ?s
      = ?s\<lparr>appStateRef := Active, pending := pending ?s @ [ForegroundQuery]\<rparr>"
    by blast
  from t have r1: "resolve (length (pending ?s)) (Resolved StatusDenied False)
      (appStateListener Active ?s)
      = ?s\<lparr>appStateRef := Active,
           permission := (if StatusDenied = StatusGranted then Granted else Denied)\<rparr>"
    by blast
  from t have r2: "resolve (length (pending ?s)) Rejected (appStateListener Active ?s)
      = ?s\<lparr>appStateRef := Active\<rparr>"
    by blast
  have p: "pending (appStateListener Active ?s) = [ForegroundQuery]"
    unfolding l by (simp add: h)
  from r1 r2 p h show ?thesis unfolding e by simp
qed

text \<open>
  C4. In every state the component can reach, when the recorded lifecycle state is
  active, the next state is background or inactive and the torch flag is on, the
  listener is registered and its own run (before any effect, hence within the
  processing of the event) sets the torch flag and its ref to false; the flag is still
  false once the effects have run. No tap is involved.
\<close>

theorem background_switches_off:
  fixes isMobile current es nextState
  defines "s \<equiv> exec isMobile current es"
  shows "appStateRef s = Active \<and> matchesInactiveBackground nextState \<and> flashlightOn s \<longrightarrow>
      subscribed s
      \<and> handle isMobile (AppStateChange nextState) s
          = s\<lparr>appStateRef := nextState, torchStateRef := False, flashlightOn := False\<rparr>
      \<and> \<not> flashlightOn (handle isMobile (AppStateChange nextState) s)
      \<and> \<not> flashlightOn (step isMobile s (AppStateChange nextState))"
proof (intro impI)
  assume a: "appStateRef s = Active \<and> matchesInactiveBackground nextState \<and> flashlightOn s"
  have c: "consistent s" unfolding s_def by (rule consistent_exec)
  with a have sub: "subscribed s" and ref: "torchStateRef s"
    by (auto simp: consistent_def)
  from a have na: "nextState \<noteq> Active" by auto
  have eq: "handle isMobile (AppStateChange nextState) s
      = s\<lparr>appStateRef := nextState, torchStateRef := False, flashlightOn := False\<rparr>"
    using a sub ref na by (simp add: appStateListener_def Let_def)
  show "subscribed s
      \<and> handle isMobile (AppStateChange nextState) s
          = s\<lparr>appStateRef := nextState, torchStateRef := False, flashlightOn := False\<rparr>
      \<and> \<not> flashlightOn (handle isMobile (AppStateChange nextState) s)
      \<and> \<not> flashlightOn (step isMobile s (AppStateChange nextState))"
    using sub eq by (simp add: step_def flashlightOn_runEffects)
qed

theorem background_switches_off_witness:
  "appStateRef (exec True Active
       [Initialize, Resolve 0 (Resolved StatusGranted True), CameraReady, Toggle]) = Active
   \<and> matchesInactiveBackground Background
   \<and> flashlightOn (exec True Active
       [Initialize, Resolve 0 (Resolved StatusGranted True), CameraReady, Toggle])
   \<and> \<not> flashlightOn (handle True (AppStateChange Background) (exec True Active
       [Initialize, Resolve 0 (Resolved StatusGranted True), CameraReady, Toggle]))
   \<and> \<not> flashlightOn (step True (exec True Active
       [Initialize, Resolve 0 (Resolved StatusGranted True), CameraReady, Toggle])
       (AppStateChange Background))"
proof -
  let ?es = "[Initialize, Resolve 0 (Resolved StatusGranted True), CameraReady, Toggle]"
  have h: "appStateRef (exec True Active ?es) = Active" "flashlightOn (exec True Active ?es)"
    by (simp_all add: run_defs handler_defs)
  have m: "matchesInactiveBackground Background" by simp
  from h m background_switches_off [of True Active ?es Background] show ?thesis by blast
qed

section \<open>After a camera error\<close>

lemma toggleTail_keeps_available:
  "cameraAvailable (toggleTail a b s) = cameraAvailable s"
  by (simp add: toggleTail_def alert_def)

lemma complete_keeps_available: "cameraAvailable (complete p r s) = cameraAvailable s"
  by (cases p; cases r)
    (simp_all add: ensureQueryResolved_def ensureRequestResolved_def
      foregroundQueryResolved_def toggleResumed_def requestPermission_def
      toggleTail_keeps_available alert_def Let_def)

lemma handle_keeps_unavailable:
  assumes "\<not> cameraAvailable s"
  shows "\<not> cameraAvailable (handle m e s)"
proof (cases e)
  case Initialize
  with assms show ?thesis
    by (simp add: initialize_def ensurePermissionEffect_def appStateEffect_def)
next
  case CameraReady
  with assms show ?thesis by (simp add: handleCameraReady_def)
next
  case (CameraError x)
  then show ?thesis by (simp add: handleCameraError_def)
next
  case (AppStateChange n)
  with assms show ?thesis by (simp add: appStateListener_def Let_def)
next
  case Toggle
  with assms show ?thesis by (simp add: buttonDisabled_def)
next
  case (Resolve i r)
  with assms show ?thesis by (simp add: resolve_def complete_keeps_available)
qed

lemma steps_keep_unavailable:
  "\<not> cameraAvailable s \<Longrightarrow> \<not> cameraAvailable (foldl (step m) s es)"
proof (induction es arbitrary: s)
  case Nil
  then show ?case by simp
next
  case (Cons e es)
  from Cons.prems have "\<not> cameraAvailable (step m s e)"
    by (simp add: step_def cameraAvailable_runEffects handle_keeps_unavailable)
  then show ?case using Cons.IH by simp
qed

lemma toggleRun_unavailable:
  assumes "\<not> cameraAvailable s"
  shows "flashlightOn (toggleRun m r s) = flashlightOn s"
  using assms
  by (cases r)
    (simp_all add: toggleRun_def toggleResumed_def requestPermission_def toggleTail_def
      alert_def Let_def)

lemma taps_while_unavailable:
  assumes "\<not> cameraAvailable s" and "\<not> flashlightOn s"
  shows "\<not> flashlightOn (foldl (step m) s (replicate n Toggle))"
  using assms
proof (induction n arbitrary: s)
  case 0
  then show ?case by simp
next
  case (Suc n)
  from Suc.prems have "\<not> cameraAvailable (step m s Toggle)" "\<not> flashlightOn (step m s Toggle)"
    by (simp_all add: step_def buttonDisabled_def cameraAvailable_runEffects
        flashlightOn_runEffects)
  from Suc.IH [OF this] show ?case by simp
qed

text \<open>
  C2, as the code has it. A camera error switches the torch flag off and leaves the
  camera errored. From then on no tap changes the torch flag, however many there are,
  and a call of toggle leaves it off as well. A later camera-ready callback does not
  change that: the camera stays errored, taps and calls still leave the torch flag off.
\<close>

theorem camera_error_blocks_toggle:
  fixes s :: app and e m n k r
  defines "s1 \<equiv> step m s (CameraError e)"
  defines "s2 \<equiv> foldl (step m) s1 (replicate n Toggle)"
  defines "s3 \<equiv> step m s2 CameraReady"
  defines "s4 \<equiv> foldl (step m) s3 (replicate k Toggle)"
  shows "\<not> flashlightOn s1 \<and> readiness s1 = Errored
       \<and> \<not> flashlightOn s2 \<and> \<not> flashlightOn (toggleRun m r s2)
       \<and> readiness s3 = Errored
       \<and> \<not> flashlightOn s4 \<and> \<not> flashlightOn (toggleRun m r s3)"
proof -
  have a1: "\<not> cameraAvailable s1" "\<not> flashlightOn s1"
    by (simp_all add: s1_def step_def handleCameraError_def cameraAvailable_runEffects
        flashlightOn_runEffects)
  have a2: "\<not> cameraAvailable s2" "\<not> flashlightOn s2"
    unfolding s2_def using a1 by (simp_all add: steps_keep_unavailable taps_while_unavailable)
  have a3: "\<not> cameraAvailable s3" "\<not> flashlightOn s3"
    unfolding s3_def using a2
    by (simp_all add: step_def handleCameraReady_def cameraAvailable_runEffects
        flashlightOn_runEffects)
  have a4: "\<not> flashlightOn s4"
    unfolding s4_def using a3 by (simp add: taps_while_unavailable)
  from a1 a2 a3 a4 show ?thesis
    by (simp add: readiness_iff toggleRun_unavailable)
qed

theorem camera_error_blocks_toggle_witness:
  "\<not> flashlightOn (step True
       (exec True Active [Initialize, Resolve 0 (Resolved StatusGranted True), CameraReady, Toggle])
       (CameraError (Some ''X'')))
   \<and> readiness (step True (foldl (step True) (step True
       (exec True Active [Initialize, Resolve 0 (Resolved StatusGranted True), CameraReady, Toggle])
       (CameraError (Some ''X''))) (replicate 2 Toggle)) CameraReady) = Errored
   \<and> \<not> flashlightOn (foldl (step True) (step True (foldl (step True) (step True
       (exec True Active [Initialize, Resolve 0 (Resolved StatusGranted True), CameraReady, Toggle])
       (CameraError (Some ''X''))) (replicate 2 Toggle)) CameraReady) (replicate 1 Toggle))"
  using camera_error_blocks_toggle [of True
      "exec True Active [Initialize, Resolve 0 (Resolved StatusGranted True), CameraReady, Toggle]"
      "Some ''X''" 2 Rejected 1]
  by blast

text \<open>
  The claim C2 as it is written fails: after a camera error that found the torch on, a
  fresh camera-ready callback does not make toggle accepted again. The tap leaves the
  torch flag off, and a direct call is refused with the "Camera unavailable" alert.
\<close>

theorem toggle_not_accepted_after_ready_counterexample:
  "flashlightOn
     (exec True Active [Initialize, Resolve 0 (Resolved StatusGranted True), CameraReady, Toggle])
   \<and> cameraReady
     (exec True Active [Initialize, Resolve 0 (Resolved StatusGranted True), CameraReady, Toggle,
        CameraError (Some ''X''), CameraReady])
   \<and> \<not> flashlightOn
     (exec True Active [Initialize, Resolve 0 (Resolved StatusGranted True), CameraReady, Toggle,
        CameraError (Some ''X''), CameraReady, Toggle])
   \<and> \<not> flashlightOn (toggleRun True Rejected
     (exec True Active [Initialize, Resolve 0 (Resolved StatusGranted True), CameraReady, Toggle,
        CameraError (Some ''X''), CameraReady]))
   \<and> alerts (toggleRun True Rejected
     (exec True Active [Initialize, Resolve 0 (Resolved StatusGranted True), CameraReady, Toggle,
        CameraError (Some ''X''), CameraReady])) = [''Camera unavailable'']"
  by (simp add: run_defs handler_defs toggleRun_def)

lemma exec_append: "foldl (step m) (exec m c es1) es2 = exec m c (es1 @ es2)"
  by (simp add: exec_def)

lemma runEffects_consistent:
  assumes "consistent s"
  shows "runEffects s = s"
proof -
  from assms have r: "torchStateRef s = flashlightOn s"
    and g: "flashlightOn s \<longrightarrow> permission s = Granted"
    by (simp_all add: consistent_def)
  have "s\<lparr>torchStateRef := flashlightOn s\<rparr> = s" using r by (cases s) simp
  with g show ?thesis by (auto simp: runEffects_def syncTorchRef_def reconcile_def)
qed

lemma completion_keeps_alerts:
  assumes "\<not> isToggleRequest p"
  shows "alerts (complete p r s) = alerts s"
  using assms
  by (cases p; cases r)
    (simp_all add: ensureQueryResolved_def ensureRequestResolved_def
      foregroundQueryResolved_def)

lemma handle_keeps_alerts:
  assumes "consistent s"
  shows "alerts (handle m e s) = alerts s"
proof (cases e)
  case Initialize
  then show ?thesis
    by (simp add: initialize_def ensurePermissionEffect_def appStateEffect_def)
next
  case CameraReady
  then show ?thesis by (simp add: handleCameraReady_def)
next
  case (CameraError x)
  then show ?thesis by (simp add: handleCameraError_def)
next
  case (AppStateChange n)
  then show ?thesis by (simp add: appStateListener_def Let_def)
next
  case Toggle
  then show ?thesis
    by (simp add: buttonDisabled_def toggleFlashlight_def toggleTail_def)
next
  case (Resolve i r)
  show ?thesis
  proof (cases "i < length (pending s)")
    case False
    with Resolve show ?thesis by (simp add: resolve_def)
  next
    case True
    then have "pending s ! i \<in> set (pending s)" by simp
    with assms have "\<not> isToggleRequest (pending s ! i)" by (simp add: consistent_def)
    with True Resolve show ?thesis by (simp add: resolve_def completion_keeps_alerts)
  qed
qed

lemma alerts_runEffects: "alerts (runEffects s) = alerts s"
  by (simp add: runEffects_def syncTorchRef_def reconcile_def)

lemma no_alert_in_any_run: "alerts (exec m c es) = []"
proof (induction es rule: rev_induct)
  case Nil
  show ?case by (simp add: exec_def initial_def)
next
  case (snoc e es)
  have "exec m c (es @ [e]) = step m (exec m c es) e" by (simp add: exec_def)
  with snoc consistent_exec [of m c es] show ?case
    by (simp add: step_def alerts_runEffects handle_keeps_alerts)
qed

text \<open>
  C10, as the code has it. Once the availability flag is false in a state the component
  has reached, then after every further sequence of events (a camera-ready callback
  included) it is still false and the torch flag is off; the button is disabled there,
  so a tap changes nothing at all. The refusal is silent: no alert has been raised, and
  the tap raises none, so the "Camera unavailable" alert of lines 204-207 never shows.
\<close>

theorem camera_unavailable_is_permanent:
  fixes isMobile current es1 es2
  defines "s \<equiv> exec isMobile current es1"
  defines "t \<equiv> foldl (step isMobile) s es2"
  shows "\<not> cameraAvailable s \<longrightarrow>
      \<not> cameraAvailable t
      \<and> \<not> flashlightOn t
      \<and> buttonDisabled isMobile t
      \<and> step isMobile t Toggle = t
      \<and> alerts t = []"
proof (intro impI)
  assume a: "\<not> cameraAvailable s"
  then have u: "\<not> cameraAvailable t"
    unfolding t_def by (rule steps_keep_unavailable)
  have te: "t = exec isMobile current (es1 @ es2)"
    unfolding t_def s_def by (rule exec_append)
  have c: "consistent t" unfolding te by (rule consistent_exec)
  with u have off: "\<not> flashlightOn t" by (auto simp: consistent_def)
  from u have dis: "buttonDisabled isMobile t" by (simp add: buttonDisabled_def)
  from dis c have tap: "step isMobile t Toggle = t"
    by (simp add: step_def runEffects_consistent)
  have quiet: "alerts t = []" unfolding te by (rule no_alert_in_any_run)
  from u off dis tap quiet
  show "\<not> cameraAvailable t
      \<and> \<not> flashlightOn t
      \<and> buttonDisabled isMobile t
      \<and> step isMobile t Toggle = t
      \<and> alerts t = []"
    by blast
qed

theorem camera_unavailable_is_permanent_witness:
  "\<not> cameraAvailable (exec True Active
       [Initialize, Resolve 0 (Resolved StatusGranted True), CameraReady, Toggle, CameraError None])
   \<and> \<not> cameraAvailable (foldl (step True) (exec True Active
       [Initialize, Resolve 0 (Resolved StatusGranted True), CameraReady, Toggle, CameraError None])
       [CameraReady, Toggle])
   \<and> \<not> flashlightOn (foldl (step True) (exec True Active
       [Initialize, Resolve 0 (Resolved StatusGranted True), CameraReady, Toggle, CameraError None])
       [CameraReady, Toggle])
   \<and> alerts (foldl (step True) (exec True Active
       [Initialize, Resolve 0 (Resolved StatusGranted True), CameraReady, Toggle, CameraError None])
       [CameraReady, Toggle]) = []"
proof -
  let ?es1 = "[Initialize, Resolve 0 (Resolved StatusGranted True), CameraReady, Toggle,
      CameraError None]"
  have h: "\<not> cameraAvailable (exec True Active ?es1)"
    by (simp add: run_defs handler_defs)
  from camera_unavailable_is_permanent [of True Active ?es1 "[CameraReady, Toggle]"] h
  show ?thesis by blast
qed

text \<open>
  The claim C10 as it is written fails in the notice: after a camera error that found
  the torch on, the tap is refused (the torch flag stays off, the camera stays
  unavailable) but no "Camera unavailable" alert is raised; no alert is raised at all.
\<close>

theorem tap_after_error_raises_no_notice_counterexample:
  "flashlightOn (exec True Active
       [Initialize, Resolve 0 (Resolved StatusGranted True), CameraReady, Toggle])
   \<and> \<not> cameraAvailable (exec True Active
       [Initialize, Resolve 0 (Resolved StatusGranted True), CameraReady, Toggle,
        CameraError None])
   \<and> \<not> flashlightOn (exec True Active
       [Initialize, Resolve 0 (Resolved StatusGranted True), CameraReady, Toggle,
        CameraError None, Toggle])
   \<and> alerts (exec True Active
       [Initialize, Resolve 0 (Resolved StatusGranted True), CameraReady, Toggle,
        CameraError None, Toggle]) = []"
  by (simp add: run_defs handler_defs)

section \<open>Unmount while a call is in flight\<close>

lemma complete_as_calls:
  "complete p r s = foldl applyCall s (completionCalls (mounted s) p r)"
  by (cases p; cases r)
    (simp_all add: ensureQueryResolved_def ensureRequestResolved_def
      foregroundQueryResolved_def toggleResumed_def requestPermission_def toggleTail_def
      toggleTailCalls_def Let_def)

lemma ensurePermission_guarded:
  "completionCalls False EnsureQuery r = []" and "completionCalls False EnsureRequest r = []"
  by (cases r; simp)+

lemma discarded_after_unmount:
  "permission (foldl applyCallUnmounted s cs) = permission s
   \<and> cameraReady (foldl applyCallUnmounted s cs) = cameraReady s
   \<and> flashlightOn (foldl applyCallUnmounted s cs) = flashlightOn s
   \<and> message (foldl applyCallUnmounted s cs) = message s
   \<and> cameraAvailable (foldl applyCallUnmounted s cs) = cameraAvailable s"
proof (induction cs arbitrary: s)
  case Nil
  show ?case by simp
next
  case (Cons c cs)
  have "permission (applyCallUnmounted s c) = permission s
      \<and> cameraReady (applyCallUnmounted s c) = cameraReady s
      \<and> flashlightOn (applyCallUnmounted s c) = flashlightOn s
      \<and> message (applyCallUnmounted s c) = message s
      \<and> cameraAvailable (applyCallUnmounted s c) = cameraAvailable s"
    by (cases c) (simp_all add: alert_def)
  with Cons.IH [of "applyCallUnmounted s c"] show ?case by simp
qed

lemma state_cells_kept_after_unmount:
  fixes s :: app and i r
  defines "u \<equiv> lastState (snd (resolveUnmounted i r (teardown s)))"
  shows "permission u = permission s \<and> cameraReady u = cameraReady s
       \<and> flashlightOn u = flashlightOn s \<and> message u = message s
       \<and> cameraAvailable u = cameraAvailable s"
  unfolding u_def
  by (simp add: resolveUnmounted_def teardown_def Let_def discarded_after_unmount)

text \<open>
  C3 at a failing input. The permission is granted and the query of the lifecycle
  listener is in flight when the component is unmounted; the query then resolves with
  status "denied". The completion calls \<open>setPermission\<close>: it tests no mounted flag
  (lines 134-136). The state cells keep their values only because the unmounted
  component takes no update. The completions of \<open>ensurePermission\<close> in the same
  situation make no call at all: they test the flag first.
\<close>

theorem unguarded_completion_after_teardown:
  "\<not> mounted (lastState (teardown (exec True Background
       [Initialize, Resolve 0 (Resolved StatusGranted True), AppStateChange Active])))
   \<and> pending (lastState (teardown (exec True Background
       [Initialize, Resolve 0 (Resolved StatusGranted True), AppStateChange Active])))
       = [ForegroundQuery]
   \<and> fst (resolveUnmounted 0 (Resolved StatusDenied False) (teardown (exec True Background
       [Initialize, Resolve 0 (Resolved StatusGranted True), AppStateChange Active])))
       = [SetPermission Denied]
   \<and> permission (lastState (snd (resolveUnmounted 0 (Resolved StatusDenied False)
       (teardown (exec True Background
         [Initialize, Resolve 0 (Resolved StatusGranted True), AppStateChange Active])))))
       = Granted
   \<and> fst (resolveUnmounted 0 (Resolved StatusDenied False) (teardown (exec True Background
       [Initialize])))
       = []"
  by (simp add: run_defs handler_defs teardown_def resolveUnmounted_def Let_def)

section \<open>The disabled button\<close>

lemma toggleRun_split:
  "toggleRun m r s =
     (if m \<and> permission s \<noteq> Granted
      then resolve (length (pending s)) r (toggleFlashlight m s)
      else toggleFlashlight m s)"
  by (simp add: toggleRun_def toggleFlashlight_def resolve_def removeAt_snoc)

text \<open>
  The invariants rest on the button being disabled while the permission is missing. A
  direct call of \<open>toggleFlashlight\<close> in such a state awaits the request, and what runs
  after the \<open>await\<close> tests the camera flags the call closed over: when a camera error
  arrives in between, the continuation still switches the torch flag on.
\<close>

lemma direct_call_reads_closed_over_flags:
  "permission (exec True Background
       [Initialize, Resolve 0 (Resolved StatusGranted True), CameraReady,
        AppStateChange Active, Resolve 0 (Resolved StatusDenied False)]) = Denied
   \<and> flashlightOn (foldl (step True) (toggleFlashlight True (exec True Background
       [Initialize, Resolve 0 (Resolved StatusGranted True), CameraReady,
        AppStateChange Active, Resolve 0 (Resolved StatusDenied False)]))
       [CameraError None, Resolve 0 (Resolved StatusGranted True)])
   \<and> \<not> cameraAvailable (foldl (step True) (toggleFlashlight True (exec True Background
       [Initialize, Resolve 0 (Resolved StatusGranted True), CameraReady,
        AppStateChange Active, Resolve 0 (Resolved StatusDenied False)]))
       [CameraError None, Resolve 0 (Resolved StatusGranted True)])"
  by (simp add: run_defs handler_defs)

end
